theory Spec2Isabelle
  imports Complex_Main
begin

section \<open>Wilcoxon signed-rank statistic and classification metrics\<close>

text \<open>
  The development embeds two notebooks of the repository.

  \<^item> \<^emph>\<open>Non-parametric Tests\<close>: the cell that computes the \<open>s_plus\<close> statistic of the
    Wilcoxon signed-rank test from \<open>data\<close> and \<open>median\<close>.
  \<^item> \<^emph>\<open>Evaluation Metrics\<close>: the hand-written \<open>precision\<close>, \<open>recall\<close> and \<open>f1\<close>.

  Observations are modelled as exact reals: the specification speaks of real-valued
  observations, and neither rounding nor NaN is part of the model. Python's unbounded
  integers are \<open>int\<close>, list positions are \<open>nat\<close>. An exception is the \<open>Inl\<close> branch of a sum.

  With exact reals every key the second loop reads has been stored by the first loop,
  so the \<open>KeyError\<close> branch of the model is never taken; a NaN observation or an integer
  column whose differences are not exactly representable as floats is outside the model.

  Of the lines that build and print the table after \<open>s_plus\<close> has been computed, only the
  list \<open>ordered_signs\<close> is modelled; the data frame itself (whose column \<open>ranks\<close> is the
  fixed \<open>range(1, 18)\<close>) is presentation and not part of the statistic.
\<close>

datatype error = KeyError | ZeroDivisionError

subsection \<open>The signed-rank cell\<close>

text \<open>The values \<open>'+'\<close> and \<open>'-'\<close> stored in the dictionary \<open>signs\<close>.\<close>

datatype sign = Plus | Minus

text \<open>\<open>diffs = data - median\<close>: the element-wise difference of the series and the scalar.\<close>

definition diffs :: "real list \<Rightarrow> real \<Rightarrow> real list" where
  "diffs data median = map (\<lambda>x. x - median) data"

text \<open>
  The first loop. Its state is the dictionary \<open>signs\<close> (\<open>dict\<close>) and the array
  \<open>absolute_diffs\<close> (\<open>arr\<close>);
  one iteration appends \<open>|diff|\<close> and stores the sign under the key \<open>|diff|\<close>, overwriting
  what an earlier difference of the same magnitude stored there:
  \<^verbatim>\<open>
  for diff in diffs:
      absolute_diffs = np.append(absolute_diffs, np.abs(diff))
      if diff < 0:
          signs[np.abs(diff)] = '-'
      else:
          signs[np.abs(diff)] = '+'
  \<close>
\<close>

fun track_sign :: "(real \<rightharpoonup> sign) \<times> real list \<Rightarrow> real \<Rightarrow> (real \<rightharpoonup> sign) \<times> real list" where
  "track_sign (dict, arr) diff =
     (if diff < 0 then (dict(\<bar>diff\<bar> \<mapsto> Minus), arr @ [\<bar>diff\<bar>])
      else (dict(\<bar>diff\<bar> \<mapsto> Plus), arr @ [\<bar>diff\<bar>]))"

definition track_signs :: "real list \<Rightarrow> (real \<rightharpoonup> sign) \<times> real list" where
  "track_signs ds = foldl track_sign (Map.empty, []) ds"

definition signs :: "real list \<Rightarrow> real \<Rightarrow> (real \<rightharpoonup> sign)" where
  "signs data median = fst (track_signs (diffs data median))"

definition absolute_diffs :: "real list \<Rightarrow> real \<Rightarrow> real list" where
  "absolute_diffs data median = snd (track_signs (diffs data median))"

text \<open>\<open>sorted_absolute_diffs = np.sort(absolute_diffs)\<close>: ascending order.\<close>

definition sorted_absolute_diffs :: "real list \<Rightarrow> real \<Rightarrow> real list" where
  "sorted_absolute_diffs data median = sort (absolute_diffs data median)"

text \<open>
  The second loop, with \<open>dict\<close> for \<open>signs\<close> and \<open>acc\<close> for the running \<open>s_plus\<close>. A dictionary
  read of a missing key raises \<open>KeyError\<close>:
  \<^verbatim>\<open>
  s_plus = 0
  for idx, diff in enumerate(sorted_absolute_diffs):
      if signs[diff] == '+':
          s_plus += idx+1
  \<close>
\<close>

fun s_plus_loop :: "(real \<rightharpoonup> sign) \<Rightarrow> (nat \<times> real) list \<Rightarrow> int \<Rightarrow> error + int" where
  "s_plus_loop dict [] acc = Inr acc"
| "s_plus_loop dict ((idx, diff) # rest) acc =
     (case dict diff of
        None \<Rightarrow> Inl KeyError
      | Some sg \<Rightarrow>
          if sg = Plus then s_plus_loop dict rest (acc + (int idx + 1))
          else s_plus_loop dict rest acc)"

definition s_plus :: "real list \<Rightarrow> real \<Rightarrow> error + int" where
  "s_plus data median =
     s_plus_loop (signs data median) (enumerate 0 (sorted_absolute_diffs data median)) 0"

text \<open>
  The column \<open>signs\<close> of the table the cell prints:
  \<^verbatim>\<open>ordered_signs = [signs[sorted_absolute_diff] for sorted_absolute_diff in sorted_absolute_diffs]\<close>
\<close>

fun lookup_signs :: "(real \<rightharpoonup> sign) \<Rightarrow> real list \<Rightarrow> error + sign list" where
  "lookup_signs dict [] = Inr []"
| "lookup_signs dict (d # ds) =
     (case dict d of
        None \<Rightarrow> Inl KeyError
      | Some sg \<Rightarrow> (case lookup_signs dict ds of Inl e \<Rightarrow> Inl e | Inr sgs \<Rightarrow> Inr (sg # sgs)))"

definition ordered_signs :: "real list \<Rightarrow> real \<Rightarrow> error + sign list" where
  "ordered_signs data median =
     lookup_signs (signs data median) (sorted_absolute_diffs data median)"

text \<open>
  The rank of a position of \<open>sorted_absolute_diffs\<close> is the summand \<open>idx+1\<close> of the second
  loop (the table's column \<open>ranks\<close> is \<open>range(1, 18)\<close> for the 17 observations).
\<close>

definition ranks :: "real list \<Rightarrow> real \<Rightarrow> int list" where
  "ranks data median =
     map (\<lambda>(idx, diff). int idx + 1) (enumerate 0 (sorted_absolute_diffs data median))"

subsection \<open>Notions of the specification\<close>

text \<open>
  Modelled from the spec: the negative-rank sum \<open>s\<^sub>-\<close>, "the sum of ranks of negative
  differences". The notebook computes \<open>s_plus\<close> only. Here every observation keeps its own
  difference: the differences are sorted by absolute value in ascending order (among
  equal magnitudes the earlier observation first), the difference at position \<open>idx\<close> has
  rank \<open>idx+1\<close>, and \<open>s_minus\<close> adds the ranks of the strictly negative differences. No
  dictionary is involved.
\<close>

definition ranked_diffs :: "real list \<Rightarrow> real \<Rightarrow> (nat \<times> real) list" where
  "ranked_diffs data median = enumerate 0 (sort_key abs (diffs data median))"

text \<open>
  Modelled from the spec: \<open>s_minus\<close>, the sum of the ranks whose own difference is strictly
  negative. When tied differences have the same sign the order among them does not
  change the sum.
\<close>

definition s_minus :: "real list \<Rightarrow> real \<Rightarrow> int" where
  "s_minus data median =
     sum_list (map (\<lambda>(idx, diff). if diff < 0 then int idx + 1 else 0)
       (ranked_diffs data median))"

text \<open>The specification's \<open>N\<close>: the number of nonzero differences.\<close>

definition nonzero_count :: "real list \<Rightarrow> real \<Rightarrow> nat" where
  "nonzero_count data median = length (filter (\<lambda>d. d \<noteq> 0) (diffs data median))"



text \<open>Reflecting every observation about the centre negates every difference.\<close>

definition reflect :: "real list \<Rightarrow> real \<Rightarrow> real list" where
  "reflect data median = map (\<lambda>x. 2 * median - x) data"

subsection \<open>Auxiliary notions for the proofs\<close>

text \<open>The sign one iteration of the first loop stores.\<close>

definition sign_of :: "real \<Rightarrow> sign" where
  "sign_of diff = (if diff < 0 then Minus else Plus)"

text \<open>The sum of the ranks of the enumerated differences that satisfy \<open>P\<close>.\<close>

definition own_rank_sum :: "(real \<Rightarrow> bool) \<Rightarrow> (nat \<times> real) list \<Rightarrow> int" where
  "own_rank_sum P es = sum_list (map (\<lambda>(idx, diff). if P diff then int idx + 1 else 0) es)"

text \<open>The sum of the ranks of the enumerated entries whose stored sign is \<open>sg\<close>.\<close>

definition rank_sum :: "sign \<Rightarrow> (real \<rightharpoonup> sign) \<Rightarrow> (nat \<times> real) list \<Rightarrow> int" where
  "rank_sum sg dict es =
     sum_list (map (\<lambda>(idx, diff). if dict diff = Some sg then int idx + 1 else 0) es)"

subsection \<open>Precision, recall and F1\<close>

text \<open>
  Labels and predictions are integer arrays; \<open>zip\<close> stops at the shorter one. The counters
  are Python integers, so the final division raises \<open>ZeroDivisionError\<close> on a zero
  denominator:
  \<^verbatim>\<open>
  def precision(labels, predictions):
      tp = 0
      fp = 0
      for label, prediction in zip(labels, predictions):
          if prediction == 1:
              if label == 1:
                  tp += 1
              else:
                  fp += 1
      return tp / (tp + fp)
  \<close>
\<close>

fun precision_loop :: "(int \<times> int) list \<Rightarrow> int \<times> int \<Rightarrow> int \<times> int" where
  "precision_loop [] (tp, fp) = (tp, fp)"
| "precision_loop ((label, prediction) # rest) (tp, fp) =
     (if prediction = 1 then
        (if label = 1 then precision_loop rest (tp + 1, fp)
         else precision_loop rest (tp, fp + 1))
      else precision_loop rest (tp, fp))"

definition precision :: "int list \<Rightarrow> int list \<Rightarrow> error + real" where
  "precision labels predictions =
     (case precision_loop (zip labels predictions) (0, 0) of
        (tp, fp) \<Rightarrow>
          if tp + fp = 0 then Inl ZeroDivisionError
          else Inr (real_of_int tp / real_of_int (tp + fp)))"

text \<open>
  \<^verbatim>\<open>
  def recall(labels, predictions):
      tp = 0
      fn = 0
      for label, prediction in zip(labels, predictions):
          if label == 1:
              if prediction == 1:
                  tp += 1
              else:
                  fn += 1
      return tp / (tp + fn)
  \<close>
\<close>

fun recall_loop :: "(int \<times> int) list \<Rightarrow> int \<times> int \<Rightarrow> int \<times> int" where
  "recall_loop [] (tp, fn) = (tp, fn)"
| "recall_loop ((label, prediction) # rest) (tp, fn) =
     (if label = 1 then
        (if prediction = 1 then recall_loop rest (tp + 1, fn)
         else recall_loop rest (tp, fn + 1))
      else recall_loop rest (tp, fn))"

definition recall :: "int list \<Rightarrow> int list \<Rightarrow> error + real" where
  "recall labels predictions =
     (case recall_loop (zip labels predictions) (0, 0) of
        (tp, fn) \<Rightarrow>
          if tp + fn = 0 then Inl ZeroDivisionError
          else Inr (real_of_int tp / real_of_int (tp + fn)))"

text \<open>
  \<^verbatim>\<open>
  def f1(labels, predictions):
      p = precision(labels, predictions)
      r = recall(labels, predictions)
      return 2 * (p*r) / (p+r)
  \<close>
  An exception of \<open>precision\<close> or \<open>recall\<close> propagates; \<open>p\<close> and \<open>r\<close> are Python floats, whose
  division by zero raises \<open>ZeroDivisionError\<close> as well.
\<close>

definition f1 :: "int list \<Rightarrow> int list \<Rightarrow> error + real" where
  "f1 labels predictions =
     (case precision labels predictions of
        Inl e \<Rightarrow> Inl e
      | Inr p \<Rightarrow>
          (case recall labels predictions of
             Inl e \<Rightarrow> Inl e
           | Inr r \<Rightarrow> if p + r = 0 then Inl ZeroDivisionError else Inr (2 * (p * r) / (p + r))))"

text \<open>
  The sample of the notebook, as its recorded output prints the column \<open>data\<close> (the file
  \<open>amazon_data.csv\<close> itself is not part of the sources). The hypothesised median is 30.
\<close>

definition reference_data :: "real list" where
  "reference_data =
     [57.925694, 40.574152, 30.232974, 20.853756, 21.355134, 14.037427, 31.696030,
      5.784466, 65.960599, 50.994944, 30.970240, 9.928767, 25.292288, 12.350119,
      28.262646, 20.945894, 54.300015]"

section \<open>Auxiliary lemmas\<close>

subsection \<open>The two loops of the signed-rank cell\<close>

text \<open>After the first loop a key holds the sign of the last difference of that magnitude.\<close>

lemma track_signs_rev:
  "foldl track_sign (dict, arr) ds =
     (\<lambda>k. case find (\<lambda>d. \<bar>d\<bar> = k) (rev ds) of None \<Rightarrow> dict k | Some d \<Rightarrow> Some (sign_of d),
      arr @ map abs ds)"
proof (induction ds rule: rev_induct)
  case Nil
  then show ?case by simp
next
  case (snoc d ds)
  then show ?case by (auto simp: sign_of_def fun_eq_iff)
qed

lemma signs_lookup:
  "signs data median k = map_option sign_of (find (\<lambda>d. \<bar>d\<bar> = k) (rev (diffs data median)))"
  by (simp add: signs_def track_signs_def track_signs_rev split: option.split)

lemma absolute_diffs_eq: "absolute_diffs data median = map abs (diffs data median)"
  by (simp add: absolute_diffs_def track_signs_def track_signs_rev)

lemma signs_defined:
  assumes "k \<in> set (absolute_diffs data median)"
  shows "\<exists>sg. signs data median k = Some sg"
proof -
  from assms obtain d where "d \<in> set (rev (diffs data median))" "\<bar>d\<bar> = k"
    by (auto simp: absolute_diffs_eq)
  then have "find (\<lambda>d. \<bar>d\<bar> = k) (rev (diffs data median)) \<noteq> None"
    by (auto simp: find_None_iff)
  then show ?thesis by (auto simp: signs_lookup)
qed

lemma s_plus_loop_rank_sum:
  "\<forall>e \<in> set es. dict (snd e) \<noteq> None \<Longrightarrow>
     s_plus_loop dict es acc = Inr (acc + rank_sum Plus dict es)"
proof (induction es arbitrary: acc)
  case Nil
  then show ?case by (simp add: rank_sum_def)
next
  case (Cons e es)
  obtain idx diff where e: "e = (idx, diff)" by (cases e)
  with Cons.prems obtain sg where sg: "dict diff = Some sg" by auto
  from Cons.prems have "\<forall>e \<in> set es. dict (snd e) \<noteq> None" by simp
  then have IH: "\<And>a. s_plus_loop dict es a = Inr (a + rank_sum Plus dict es)"
    by (rule Cons.IH)
  show ?case by (simp add: e sg IH rank_sum_def)
qed

lemma sorted_keys_defined:
  "\<forall>e \<in> set (enumerate n (sorted_absolute_diffs data median)). signs data median (snd e) \<noteq> None"
proof
  fix e assume "e \<in> set (enumerate n (sorted_absolute_diffs data median))"
  then have "snd e \<in> snd ` set (enumerate n (sorted_absolute_diffs data median))"
    by (rule imageI)
  then have "snd e \<in> set (sorted_absolute_diffs data median)"
    by (simp only: set_map[symmetric] map_snd_enumerate)
  then have "snd e \<in> set (absolute_diffs data median)"
    by (simp add: sorted_absolute_diffs_def)
  then show "signs data median (snd e) \<noteq> None"
    using signs_defined by fastforce
qed

lemma s_plus_eq:
  "s_plus data median =
     Inr (rank_sum Plus (signs data median) (enumerate 0 (sorted_absolute_diffs data median)))"
  by (simp add: s_plus_def s_plus_loop_rank_sum[OF sorted_keys_defined])

subsection \<open>Rank sums\<close>

lemma rank_sum_both:
  "\<forall>e \<in> set es. dict (snd e) \<noteq> None \<Longrightarrow>
     rank_sum Plus dict es + rank_sum Minus dict es = sum_list (map (\<lambda>(idx, diff). int idx + 1) es)"
proof (induction es)
  case Nil
  then show ?case by (simp add: rank_sum_def)
next
  case (Cons e es)
  obtain idx diff where e: "e = (idx, diff)" by (cases e)
  with Cons.prems obtain sg where sg: "dict diff = Some sg" by auto
  from Cons have IH: "rank_sum Plus dict es + rank_sum Minus dict es =
      sum_list (map (\<lambda>(idx, diff). int idx + 1) es)" by simp
  from IH show ?case by (cases sg) (simp_all add: e sg rank_sum_def)
qed

lemma rank_sum_nonneg: "0 \<le> rank_sum sg dict es"
  unfolding rank_sum_def by (rule sum_list_nonneg) auto

lemma enumerate_rank_total:
  "2 * sum_list (map (\<lambda>(idx, diff). int idx + 1) (enumerate k vs)) =
     int (length vs) * (2 * int k + int (length vs) + 1)"
  by (induction vs arbitrary: k) (simp_all add: algebra_simps)

lemma all_ranks_total:
  "sum_list (map (\<lambda>(idx, diff). int idx + 1) (enumerate 0 vs)) =
     int (length vs) * (int (length vs) + 1) div 2"
  using enumerate_rank_total[of 0 vs] by simp

lemma length_sorted_absolute_diffs [simp]:
  "length (sorted_absolute_diffs data median) = length data"
  by (simp add: sorted_absolute_diffs_def absolute_diffs_eq diffs_def)

lemma rank_sum_total:
  "rank_sum Plus (signs data median) (enumerate 0 (sorted_absolute_diffs data median)) +
   rank_sum Minus (signs data median) (enumerate 0 (sorted_absolute_diffs data median)) =
     int (length data) * (int (length data) + 1) div 2"
  by (simp add: rank_sum_both[OF sorted_keys_defined] all_ranks_total)

lemma rank_sum_all:
  "\<forall>e \<in> set es. dict (snd e) = Some sg \<Longrightarrow>
     rank_sum sg dict es = sum_list (map (\<lambda>(idx, diff). int idx + 1) es)"
  unfolding rank_sum_def by (induction es) auto

lemma rank_sum_none:
  "\<forall>e \<in> set es. dict (snd e) \<noteq> Some sg \<Longrightarrow> rank_sum sg dict es = 0"
  unfolding rank_sum_def by (induction es) auto

subsection \<open>Samples on one side of the centre\<close>

lemma find_Some_set: "find P xs = Some x \<Longrightarrow> x \<in> set xs"
  by (induction xs) (auto split: if_splits)

lemma signs_sorted_key:
  assumes "e \<in> set (enumerate n (sorted_absolute_diffs data median))"
  obtains d where "d \<in> set (diffs data median)" and
    "signs data median (snd e) = Some (sign_of d)"
proof -
  from sorted_keys_defined assms obtain sg where "signs data median (snd e) = Some sg"
    by blast
  then obtain d where "find (\<lambda>d. \<bar>d\<bar> = snd e) (rev (diffs data median)) = Some d"
      and "sg = sign_of d"
    by (auto simp: signs_lookup)
  then have "d \<in> set (diffs data median)"
    by (auto dest: find_Some_set)
  with that \<open>signs data median (snd e) = Some sg\<close> \<open>sg = sign_of d\<close> show thesis by simp
qed

lemma signs_all_nonneg:
  assumes "\<forall>x \<in> set data. median \<le> x"
  shows "\<forall>e \<in> set (enumerate n (sorted_absolute_diffs data median)).
           signs data median (snd e) = Some Plus"
proof
  fix e assume "e \<in> set (enumerate n (sorted_absolute_diffs data median))"
  then obtain d where d: "d \<in> set (diffs data median)"
      and s: "signs data median (snd e) = Some (sign_of d)"
    by (rule signs_sorted_key)
  from d assms have "0 \<le> d" by (auto simp: diffs_def)
  with s show "signs data median (snd e) = Some Plus" by (simp add: sign_of_def)
qed

lemma signs_all_neg:
  assumes "\<forall>x \<in> set data. x < median"
  shows "\<forall>e \<in> set (enumerate n (sorted_absolute_diffs data median)).
           signs data median (snd e) \<noteq> Some Plus"
proof
  fix e assume "e \<in> set (enumerate n (sorted_absolute_diffs data median))"
  then obtain d where d: "d \<in> set (diffs data median)"
      and s: "signs data median (snd e) = Some (sign_of d)"
    by (rule signs_sorted_key)
  from d assms have "d < 0" by (auto simp: diffs_def)
  with s show "signs data median (snd e) \<noteq> Some Plus" by (simp add: sign_of_def)
qed

lemma s_plus_all_nonneg:
  assumes "\<forall>x \<in> set data. median \<le> x"
  shows "s_plus data median = Inr (int (length data) * (int (length data) + 1) div 2)"
  by (simp add: s_plus_eq rank_sum_all[OF signs_all_nonneg[OF assms]] all_ranks_total)

lemma s_plus_all_neg:
  assumes "\<forall>x \<in> set data. x < median"
  shows "s_plus data median = Inr 0"
  by (simp add: s_plus_eq rank_sum_none[OF signs_all_neg[OF assms]])

lemma nonzero_count_all:
  "median \<notin> set data \<Longrightarrow> nonzero_count data median = length data"
  by (induction data) (auto simp: nonzero_count_def diffs_def)

subsection \<open>Search in the list of differences, reflection\<close>

lemma find_Some_holds: "find P xs = Some x \<Longrightarrow> P x"
  by (induction xs) (auto split: if_splits)

lemma diffs_reflect: "diffs (reflect data median) median = map uminus (diffs data median)"
  by (simp add: diffs_def reflect_def)

subsection \<open>Ranks of the observations' own differences\<close>

text \<open>
  If differences of equal magnitude never have opposite signs, the sign the dictionary
  holds for a magnitude is the sign of every difference of that magnitude, and \<open>s_plus\<close> is
  the sum of the ranks of the non-negative differences.
\<close>

lemma map_insort_key: "map f (insort_key f x xs) = insort (f x) (map f xs)"
  by (induction xs) simp_all

lemma map_sort_key: "map f (sort_key f xs) = sort (map f xs)"
  by (induction xs) (simp_all add: map_insort_key)

lemma sorted_absolute_diffs_ranked:
  "sorted_absolute_diffs data median = map abs (sort_key abs (diffs data median))"
  by (simp add: sorted_absolute_diffs_def absolute_diffs_eq map_sort_key)

lemma rank_sum_map_abs:
  "rank_sum sg dict (enumerate k (map abs ds)) = own_rank_sum (\<lambda>d. dict \<bar>d\<bar> = Some sg) (enumerate k ds)"
  by (induction ds arbitrary: k) (simp_all add: rank_sum_def own_rank_sum_def)

lemma own_rank_sum_cong:
  "\<forall>e \<in> set es. P (snd e) = Q (snd e) \<Longrightarrow> own_rank_sum P es = own_rank_sum Q es"
  unfolding own_rank_sum_def by (induction es) auto

lemma own_rank_sum_split:
  "own_rank_sum P es + own_rank_sum (\<lambda>d. \<not> P d) es = sum_list (map (\<lambda>(idx, diff). int idx + 1) es)"
  unfolding own_rank_sum_def by (induction es) auto

lemma own_rank_sum_uminus:
  "own_rank_sum P (enumerate k (map uminus ds)) = own_rank_sum (\<lambda>d. P (- d)) (enumerate k ds)"
  by (induction ds arbitrary: k) (simp_all add: own_rank_sum_def)

lemma snd_enumerate_mem: "e \<in> set (enumerate k xs) \<Longrightarrow> snd e \<in> set xs"
proof -
  assume "e \<in> set (enumerate k xs)"
  then have "snd e \<in> snd ` set (enumerate k xs)" by (rule imageI)
  then show "snd e \<in> set xs" by (simp only: set_map[symmetric] map_snd_enumerate)
qed

lemma signs_own_sign:
  assumes same: "\<forall>d \<in> set (diffs data median). \<forall>d' \<in> set (diffs data median).
      \<bar>d\<bar> = \<bar>d'\<bar> \<longrightarrow> (d < 0 \<longleftrightarrow> d' < 0)"
    and d: "d \<in> set (diffs data median)"
  shows "signs data median \<bar>d\<bar> = Some (sign_of d)"
proof -
  from d have "find (\<lambda>x. \<bar>x\<bar> = \<bar>d\<bar>) (rev (diffs data median)) \<noteq> None"
    by (auto simp: find_None_iff)
  then obtain d' where f: "find (\<lambda>x. \<bar>x\<bar> = \<bar>d\<bar>) (rev (diffs data median)) = Some d'"
    by auto
  then have "d' \<in> set (diffs data median)" and "\<bar>d'\<bar> = \<bar>d\<bar>"
    by (auto dest: find_Some_set find_Some_holds)
  with same d have "d' < 0 \<longleftrightarrow> d < 0" by blast
  then have "sign_of d' = sign_of d" by (simp add: sign_of_def)
  with f show ?thesis by (simp add: signs_lookup)
qed

lemma s_plus_own_signs:
  assumes same: "\<forall>d \<in> set (diffs data median). \<forall>d' \<in> set (diffs data median).
      \<bar>d\<bar> = \<bar>d'\<bar> \<longrightarrow> (d < 0 \<longleftrightarrow> d' < 0)"
  shows "s_plus data median = Inr (own_rank_sum (\<lambda>d. \<not> d < 0) (ranked_diffs data median))"
proof -
  have "own_rank_sum (\<lambda>d. signs data median \<bar>d\<bar> = Some Plus) (ranked_diffs data median) =
      own_rank_sum (\<lambda>d. \<not> d < 0) (ranked_diffs data median)"
  proof (rule own_rank_sum_cong, rule ballI)
    fix e assume "e \<in> set (ranked_diffs data median)"
    then have "snd e \<in> set (diffs data median)"
      unfolding ranked_diffs_def by (auto dest: snd_enumerate_mem)
    then have "signs data median \<bar>snd e\<bar> = Some (sign_of (snd e))"
      by (rule signs_own_sign[OF same])
    then show "(signs data median \<bar>snd e\<bar> = Some Plus) = (\<not> snd e < 0)"
      by (simp add: sign_of_def)
  qed
  then show ?thesis
    by (simp add: s_plus_eq sorted_absolute_diffs_ranked rank_sum_map_abs ranked_diffs_def)
qed

lemma s_minus_own: "s_minus data median = own_rank_sum (\<lambda>d. d < 0) (ranked_diffs data median)"
  by (simp add: s_minus_def own_rank_sum_def)

lemma length_ranked_diffs: "length (ranked_diffs data median) = length data"
  by (simp add: ranked_diffs_def diffs_def)

lemma ranked_diffs_total:
  "sum_list (map (\<lambda>(idx, diff). int idx + 1) (ranked_diffs data median)) =
     int (length data) * (int (length data) + 1) div 2"
  by (simp add: ranked_diffs_def all_ranks_total diffs_def)

lemma insort_key_abs_uminus:
  "insort_key abs (- x) (map uminus ys) = map uminus (insort_key abs (x::real) ys)"
  by (induction ys) simp_all

lemma sort_key_abs_uminus:
  "sort_key abs (map uminus ds) = map uminus (sort_key abs (ds::real list))"
  by (induction ds) (simp_all add: insort_key_abs_uminus)

lemma ranked_diffs_reflect:
  "ranked_diffs (reflect data median) median =
     enumerate 0 (map uminus (sort_key abs (diffs data median)))"
  by (simp add: ranked_diffs_def diffs_reflect sort_key_abs_uminus)

lemma own_rank_sum_ranked_reflect:
  "own_rank_sum P (ranked_diffs (reflect data median) median) =
     own_rank_sum (\<lambda>d. P (- d)) (ranked_diffs data median)"
  by (simp only: ranked_diffs_reflect own_rank_sum_uminus) (simp only: ranked_diffs_def)

lemma own_rank_sum_reflect:
  assumes "median \<notin> set data"
  shows "own_rank_sum (\<lambda>d. \<not> d < 0) (ranked_diffs (reflect data median) median) =
           own_rank_sum (\<lambda>d. d < 0) (ranked_diffs data median)"
    and "own_rank_sum (\<lambda>d. d < 0) (ranked_diffs (reflect data median) median) =
           own_rank_sum (\<lambda>d. \<not> d < 0) (ranked_diffs data median)"
proof -
  have nz: "snd e \<noteq> 0" if "e \<in> set (ranked_diffs data median)" for e
  proof -
    from that have "snd e \<in> set (diffs data median)"
      unfolding ranked_diffs_def by (auto dest: snd_enumerate_mem)
    with assms show ?thesis by (auto simp: diffs_def)
  qed
  have "own_rank_sum (\<lambda>d. \<not> d < 0) (ranked_diffs (reflect data median) median) =
      own_rank_sum (\<lambda>d. \<not> - d < 0) (ranked_diffs data median)"
    by (rule own_rank_sum_ranked_reflect)
  also have "\<dots> = own_rank_sum (\<lambda>d. d < 0) (ranked_diffs data median)"
  proof (rule own_rank_sum_cong, rule ballI)
    fix e assume "e \<in> set (ranked_diffs data median)"
    then have "snd e \<noteq> 0" by (rule nz)
    then show "(\<not> - snd e < 0) = (snd e < 0)" by auto
  qed
  finally show "own_rank_sum (\<lambda>d. \<not> d < 0) (ranked_diffs (reflect data median) median) =
      own_rank_sum (\<lambda>d. d < 0) (ranked_diffs data median)" .
  have "own_rank_sum (\<lambda>d. d < 0) (ranked_diffs (reflect data median) median) =
      own_rank_sum (\<lambda>d. - d < 0) (ranked_diffs data median)"
    by (rule own_rank_sum_ranked_reflect)
  also have "\<dots> = own_rank_sum (\<lambda>d. \<not> d < 0) (ranked_diffs data median)"
  proof (rule own_rank_sum_cong, rule ballI)
    fix e assume "e \<in> set (ranked_diffs data median)"
    then have "snd e \<noteq> 0" by (rule nz)
    then show "(- snd e < 0) = (\<not> snd e < 0)" by auto
  qed
  finally show "own_rank_sum (\<lambda>d. d < 0) (ranked_diffs (reflect data median) median) =
      own_rank_sum (\<lambda>d. \<not> d < 0) (ranked_diffs data median)" .
qed

lemma same_sign_reflect:
  assumes "median \<notin> set data"
    and same: "\<forall>d \<in> set (diffs data median). \<forall>d' \<in> set (diffs data median).
      \<bar>d\<bar> = \<bar>d'\<bar> \<longrightarrow> (d < 0 \<longleftrightarrow> d' < 0)"
  shows "\<forall>d \<in> set (diffs (reflect data median) median).
      \<forall>d' \<in> set (diffs (reflect data median) median). \<bar>d\<bar> = \<bar>d'\<bar> \<longrightarrow> (d < 0 \<longleftrightarrow> d' < 0)"
proof (intro ballI impI)
  fix d d' assume "d \<in> set (diffs (reflect data median) median)"
    and "d' \<in> set (diffs (reflect data median) median)" and eq: "\<bar>d\<bar> = \<bar>d'\<bar>"
  then have m: "- d \<in> set (diffs data median)" "- d' \<in> set (diffs data median)"
    by (auto simp: diffs_reflect)
  with assms(1) have "d \<noteq> 0" "d' \<noteq> 0" by (auto simp: diffs_def)
  moreover from eq have "\<bar>- d\<bar> = \<bar>- d'\<bar>" by simp
  with same m have "- d < 0 \<longleftrightarrow> - d' < 0" by blast
  ultimately show "d < 0 \<longleftrightarrow> d' < 0" by auto
qed

text \<open>
  Without that condition the dictionary keeps the sign of the last difference only: for
  the observations 29 and 31 and centre 30 both ranks are added to \<open>s_plus\<close>, although the
  difference of 29 is negative and has rank 1.
\<close>

lemma opposite_signs_same_magnitude:
  "diffs [29, 31] 30 = [- 1, 1] \<and> s_plus [29, 31] 30 = Inr 3 \<and> s_minus [29, 31] 30 = 1"
  by (simp add: s_plus_def s_minus_def ranked_diffs_def signs_def sorted_absolute_diffs_def
      absolute_diffs_def track_signs_def diffs_def)

subsection \<open>Zero differences and the table's sign column\<close>

lemma lookup_signs_defined:
  "\<forall>d \<in> set ds. dict d \<noteq> None \<Longrightarrow> lookup_signs dict ds = Inr (map (\<lambda>d. the (dict d)) ds)"
  by (induction ds) auto

lemma sum_list_enumerate:
  "sum_list (map f (enumerate k vs)) = (\<Sum>i<length vs. (f (k + i, vs ! i) :: int))"
proof (induction vs arbitrary: k)
  case Nil
  then show ?case by simp
next
  case (Cons v vs)
  have "sum_list (map f (enumerate k (v # vs))) = f (k, v) + (\<Sum>i<length vs. f (Suc k + i, vs ! i))"
    by (simp add: Cons.IH)
  also have "\<dots> = (\<Sum>i<length (v # vs). f (k + i, (v # vs) ! i))"
    by (simp add: sum.lessThan_Suc_shift del: sum.lessThan_Suc)
  finally show ?case .
qed

lemma rank_sum_nth:
  "rank_sum sg dict (enumerate 0 vs) =
     (\<Sum>i<length vs. if dict (vs ! i) = Some sg then int i + 1 else 0)"
  by (simp add: rank_sum_def sum_list_enumerate)

lemma sorted_values_defined:
  "\<forall>d \<in> set (sorted_absolute_diffs data median). signs data median d \<noteq> None"
proof
  fix d assume "d \<in> set (sorted_absolute_diffs data median)"
  then have "d \<in> set (absolute_diffs data median)"
    by (simp add: sorted_absolute_diffs_def)
  then show "signs data median d \<noteq> None"
    using signs_defined by fastforce
qed

lemma ordered_signs_eq:
  "ordered_signs data median =
     Inr (map (\<lambda>d. the (signs data median d)) (sorted_absolute_diffs data median))"
  by (simp add: ordered_signs_def lookup_signs_defined[OF sorted_values_defined])

lemma signs_zero:
  assumes "median \<in> set data"
  shows "signs data median 0 = Some Plus"
proof -
  from assms have "0 \<in> set (rev (diffs data median))" by (force simp: diffs_def)
  then have "find (\<lambda>d. \<bar>d\<bar> = 0) (rev (diffs data median)) \<noteq> None"
    by (auto simp: find_None_iff)
  then obtain d where d: "find (\<lambda>d. \<bar>d\<bar> = 0) (rev (diffs data median)) = Some d" by auto
  then have "\<bar>d\<bar> = 0" by (rule find_Some_holds)
  with d show ?thesis by (simp add: signs_lookup sign_of_def)
qed

lemma sorted_absolute_diffs_first_zero:
  assumes "median \<in> set data"
  shows "sorted_absolute_diffs data median ! 0 = 0"
proof -
  let ?vs = "sorted_absolute_diffs data median"
  from assms have z: "0 \<in> set ?vs"
    by (force simp: sorted_absolute_diffs_def absolute_diffs_eq diffs_def)
  then have ne: "0 < length ?vs" by (cases ?vs) auto
  have srt: "sorted ?vs" by (simp add: sorted_absolute_diffs_def)
  from z obtain j where j: "j < length ?vs" "?vs ! j = 0" by (auto simp: in_set_conv_nth)
  with srt have "?vs ! 0 \<le> 0" using sorted_nth_mono[of ?vs 0 j] by simp
  moreover have "?vs ! 0 \<in> set ?vs" using ne by (rule nth_mem)
  then have "0 \<le> ?vs ! 0" by (auto simp: sorted_absolute_diffs_def absolute_diffs_eq)
  ultimately show ?thesis by simp
qed

subsection \<open>Ranks\<close>

lemma ranks_eq: "ranks data median = map (\<lambda>i. int i + 1) [0..<length data]"
proof -
  let ?es = "enumerate 0 (sorted_absolute_diffs data median)"
  have "ranks data median = map ((\<lambda>i. int i + 1) \<circ> fst) ?es"
    by (simp add: ranks_def case_prod_unfold comp_def)
  also have "\<dots> = map (\<lambda>i. int i + 1) (map fst ?es)"
    by (simp only: map_map)
  finally show ?thesis by simp
qed

lemma set_ranks: "set (ranks data median) = {1..int (length data)}"
proof -
  have "(\<lambda>i. int i + 1) ` {0..<length data} = {1..int (length data)}"
  proof (rule set_eqI)
    fix x :: int
    show "x \<in> (\<lambda>i. int i + 1) ` {0..<length data} \<longleftrightarrow> x \<in> {1..int (length data)}"
    proof
      assume "x \<in> (\<lambda>i. int i + 1) ` {0..<length data}"
      then show "x \<in> {1..int (length data)}" by auto
    next
      assume x: "x \<in> {1..int (length data)}"
      then have "nat (x - 1) \<in> {0..<length data}" and "x = int (nat (x - 1)) + 1" by auto
      then show "x \<in> (\<lambda>i. int i + 1) ` {0..<length data}" by (rule rev_image_eqI)
    qed
  qed
  then show ?thesis by (simp add: ranks_eq)
qed

lemma distinct_ranks: "distinct (ranks data median)"
  by (simp add: ranks_eq distinct_map inj_on_def)

lemma unique_position:
  assumes "distinct ys" and "set ys = set xs" and "x \<in> set xs"
  shows "\<exists>!j. j < length ys \<and> ys ! j = x"
proof -
  from assms have "x \<in> set ys" by simp
  then obtain j where "j < length ys" "ys ! j = x" by (auto simp: in_set_conv_nth)
  moreover have "k = j" if "k < length ys" "ys ! k = x" for k
    using nth_eq_iff_index_eq[OF assms(1), of k j] that \<open>j < length ys\<close> \<open>ys ! j = x\<close> by simp
  ultimately show ?thesis by blast
qed



subsection \<open>The counters of precision and recall\<close>

lemma precision_loop_counts:
  "precision_loop es (tp, fp) =
     (tp + int (length (filter (\<lambda>(l, p). p = 1 \<and> l = 1) es)),
      fp + int (length (filter (\<lambda>(l, p). p = 1 \<and> l \<noteq> 1) es)))"
proof (induction es arbitrary: tp fp)
  case Nil
  then show ?case by simp
next
  case (Cons e es)
  obtain l p where e: "e = (l, p)" by (cases e)
  show ?case by (simp add: e Cons.IH)
qed

lemma recall_loop_counts:
  "recall_loop es (tp, fn) =
     (tp + int (length (filter (\<lambda>(l, p). l = 1 \<and> p = 1) es)),
      fn + int (length (filter (\<lambda>(l, p). l = 1 \<and> p \<noteq> 1) es)))"
proof (induction es arbitrary: tp fn)
  case Nil
  then show ?case by simp
next
  case (Cons e es)
  obtain l p where e: "e = (l, p)" by (cases e)
  show ?case by (simp add: e Cons.IH)
qed

lemma int_sum_zero: "int a + int b = 0 \<longleftrightarrow> a = 0 \<and> b = 0"
  by linarith

lemma no_positive_prediction:
  "int (length (filter (\<lambda>(l, p). p = 1 \<and> l = 1) es)) +
   int (length (filter (\<lambda>(l, p). p = 1 \<and> l \<noteq> 1) es)) = 0 \<longleftrightarrow>
     (1::int) \<notin> snd ` set (es :: (int \<times> int) list)"
proof -
  have "int (length (filter (\<lambda>(l, p). p = 1 \<and> l = 1) es)) +
      int (length (filter (\<lambda>(l, p). p = 1 \<and> l \<noteq> 1) es)) = 0 \<longleftrightarrow>
    filter (\<lambda>(l, p). p = (1::int) \<and> l = (1::int)) es = [] \<and>
    filter (\<lambda>(l, p). p = 1 \<and> l \<noteq> 1) es = []"
    by (simp add: int_sum_zero)
  also have "\<dots> \<longleftrightarrow> (\<forall>x \<in> set es. snd x \<noteq> 1)"
    unfolding filter_empty_conv by fastforce
  also have "\<dots> \<longleftrightarrow> 1 \<notin> snd ` set es" by force
  finally show ?thesis .
qed

lemma no_positive_label:
  "int (length (filter (\<lambda>(l, p). l = 1 \<and> p = 1) es)) +
   int (length (filter (\<lambda>(l, p). l = 1 \<and> p \<noteq> 1) es)) = 0 \<longleftrightarrow>
     (1::int) \<notin> fst ` set (es :: (int \<times> int) list)"
proof -
  have "int (length (filter (\<lambda>(l, p). l = 1 \<and> p = 1) es)) +
      int (length (filter (\<lambda>(l, p). l = 1 \<and> p \<noteq> 1) es)) = 0 \<longleftrightarrow>
    filter (\<lambda>(l, p). l = (1::int) \<and> p = (1::int)) es = [] \<and>
    filter (\<lambda>(l, p). l = 1 \<and> p \<noteq> 1) es = []"
    by (simp add: int_sum_zero)
  also have "\<dots> \<longleftrightarrow> (\<forall>x \<in> set es. fst x \<noteq> 1)"
    unfolding filter_empty_conv by fastforce
  also have "\<dots> \<longleftrightarrow> 1 \<notin> fst ` set es" by force
  finally show ?thesis .
qed

lemma precision_fails_iff:
  "precision labels predictions = Inl e \<longleftrightarrow>
     e = ZeroDivisionError \<and> 1 \<notin> snd ` set (zip labels predictions)"
  unfolding precision_def precision_loop_counts
  by (simp only: prod.case add_0 no_positive_prediction[symmetric]) auto

lemma recall_fails_iff:
  "recall labels predictions = Inl e \<longleftrightarrow>
     e = ZeroDivisionError \<and> 1 \<notin> fst ` set (zip labels predictions)"
  unfolding recall_def recall_loop_counts
  by (simp only: prod.case add_0 no_positive_label[symmetric]) auto

lemma f1_fails: "f1 labels predictions = Inl e \<Longrightarrow> e = ZeroDivisionError"
  by (auto simp: f1_def precision_fails_iff recall_fails_iff split: sum.splits if_splits)

lemma precision_no_positive:
  assumes "1 \<notin> set predictions"
  shows "precision_loop (zip labels predictions) (0, 0) = (0, 0) \<and>
         precision labels predictions = Inl ZeroDivisionError"
proof -
  from assms have "1 \<notin> snd ` set (zip labels predictions)"
    by (auto dest: set_zip_rightD)
  then have "precision labels predictions = Inl ZeroDivisionError"
    by (simp add: precision_fails_iff)
  then show ?thesis
    by (simp add: precision_def precision_loop_counts int_sum_zero split: if_splits)
qed

lemma recall_no_positive:
  assumes "1 \<notin> set labels"
  shows "recall_loop (zip labels predictions) (0, 0) = (0, 0) \<and>
         recall labels predictions = Inl ZeroDivisionError"
proof -
  from assms have "1 \<notin> fst ` set (zip labels predictions)"
    by (auto dest: set_zip_leftD)
  then have "recall labels predictions = Inl ZeroDivisionError"
    by (simp add: recall_fails_iff)
  then show ?thesis
    by (simp add: recall_def recall_loop_counts int_sum_zero split: if_splits)
qed

section \<open>Properties\<close>

subsection \<open>The reference sample\<close>

text \<open>
  C1. On the reference sample of 17 observations with hypothesised centre 30 the cell
  computes \<open>s_plus = 76\<close>, the value the notebook prints; the sorted absolute differences,
  their signs and the ranks 1 to 17 are the columns of the printed table.
\<close>

theorem s_plus_reference_data:
  "length reference_data = 17 \<and>
   sorted_absolute_diffs reference_data 30 =
     [0.232974, 0.970240, 1.696030, 1.737354, 4.707712, 8.644866, 9.054106, 9.146244,
      10.574152, 15.962573, 17.649881, 20.071233, 20.994944, 24.215534, 24.300015,
      27.925694, 35.960599] \<and>
   ordered_signs reference_data 30 =
     Inr [Plus, Plus, Plus, Minus, Minus, Minus, Minus, Minus, Plus, Minus, Minus, Minus,
          Plus, Minus, Plus, Plus, Plus] \<and>
   ranks reference_data 30 = [1, 2, 3, 4, 5, 6, 7, 8, 9, 10, 11, 12, 13, 14, 15, 16, 17] \<and>
   s_plus reference_data 30 = Inr 76"
  by (simp add: reference_data_def s_plus_def ordered_signs_def ranks_def signs_def
      sorted_absolute_diffs_def absolute_diffs_def track_signs_def diffs_def)

subsection \<open>Ranks and ties\<close>




subsection \<open>The two rank sums\<close>

text \<open>
  C3 (as the code has it). For every sample in which differences of equal magnitude never
  have opposite signs, \<open>s_plus\<close> and the sum of the ranks of the negative differences add up
  to \<open>n(n+1)/2\<close>, where \<open>n\<close> is the number of \<^emph>\<open>all\<close> observations: a zero difference is ranked
  like any other and is counted in \<open>s_plus\<close>.
\<close>

theorem s_plus_s_minus_total:
  assumes "\<forall>d \<in> set (diffs data median). \<forall>d' \<in> set (diffs data median).
      \<bar>d\<bar> = \<bar>d'\<bar> \<longrightarrow> (d < 0 \<longleftrightarrow> d' < 0)"
  shows "\<exists>p. s_plus data median = Inr p \<and>
           p + s_minus data median = int (length data) * (int (length data) + 1) div 2"
proof -
  have "own_rank_sum (\<lambda>d. \<not> d < 0) (ranked_diffs data median) + s_minus data median =
      int (length data) * (int (length data) + 1) div 2"
    using own_rank_sum_split[of "\<lambda>d. d < 0" "ranked_diffs data median"]
    by (simp add: s_minus_own ranked_diffs_total)
  then show ?thesis by (simp add: s_plus_own_signs[OF assms])
qed

theorem s_plus_s_minus_total_witness:
  "diffs [30, 31, 31, 28] 30 = [0, 1, 1, - 2] \<and>
   s_plus [30, 31, 31, 28] 30 = Inr 6 \<and> s_minus [30, 31, 31, 28] 30 = 4"
proof -
  have d: "diffs [30, 31, 31, 28] 30 = [0, 1, 1, - 2]" by (simp add: diffs_def)
  have h: "\<forall>d \<in> set (diffs [30, 31, 31, 28] 30). \<forall>d' \<in> set (diffs [30, 31, 31, 28] 30).
      \<bar>d\<bar> = \<bar>d'\<bar> \<longrightarrow> (d < 0 \<longleftrightarrow> d' < 0)"
    by (simp add: d)
  have m: "s_minus [30, 31, 31, 28] 30 = 4"
    by (simp add: s_minus_def ranked_diffs_def d)
  from s_plus_s_minus_total[OF h] m d show ?thesis by simp
qed

text \<open>
  With \<open>N\<close> the number of nonzero differences the identity fails: for the observations
  30 and 31 and centre 30 the sums are 3 and 0, while \<open>N = 1\<close> and \<open>N(N+1)/2 = 1\<close>.
\<close>

theorem s_plus_s_minus_nonzero_count_counterexample:
  "s_plus [30, 31] 30 = Inr 3 \<and> s_minus [30, 31] 30 = 0 \<and> nonzero_count [30, 31] 30 = 1 \<and>
   (3::int) + s_minus [30, 31] 30 \<noteq>
     int (nonzero_count [30, 31] 30) * (int (nonzero_count [30, 31] 30) + 1) div 2"
  by (simp add: s_plus_def s_minus_def ranked_diffs_def signs_def sorted_absolute_diffs_def
      absolute_diffs_def track_signs_def diffs_def nonzero_count_def)

subsection \<open>Degenerate input\<close>

text \<open>
  C4 (as the code has it). On degenerate input the computation of \<open>s_plus\<close> reports no error
  and returns a number: the empty sample gives \<open>s_plus = 0\<close>, and a sample whose differences
  are all zero gives \<open>n(n+1)/2\<close>, because every zero difference is signed \<open>'+'\<close>.
\<close>

theorem s_plus_degenerate:
  "s_plus [] median = Inr 0 \<and>
   ((\<forall>x \<in> set data. x = median) \<longrightarrow>
      s_plus data median = Inr (int (length data) * (int (length data) + 1) div 2))"
proof (intro conjI impI)
  show "s_plus [] median = Inr 0"
    using s_plus_all_neg[of "[]" median] by simp
next
  assume "\<forall>x \<in> set data. x = median"
  then have "\<forall>x \<in> set data. median \<le> x" by simp
  then show "s_plus data median = Inr (int (length data) * (int (length data) + 1) div 2)"
    by (rule s_plus_all_nonneg)
qed

theorem s_plus_degenerate_witness:
  "s_plus [] 30 = Inr 0 \<and> s_plus [30, 30] 30 = Inr 3"
  using s_plus_degenerate[of 30 "[30, 30]"] by simp

text \<open>
  The claim that degenerate input fails with an error is false of the cell: neither the
  empty sample nor the sample 30, 30 with centre 30 yields an error value.
\<close>

theorem s_plus_degenerate_counterexample:
  "\<not> isl (s_plus [] 30) \<and> \<not> isl (s_plus [30, 30] 30) \<and> s_plus [30, 30] 30 = Inr 3"
  by (simp add: s_plus_def signs_def sorted_absolute_diffs_def
      absolute_diffs_def track_signs_def diffs_def)

subsection \<open>Bounds of the statistic\<close>

text \<open>
  C5 (as the code has it). For every sample \<open>0 \<le> s_plus \<le> n(n+1)/2\<close>, where \<open>n\<close> is the
  number of all observations, each of which is ranked.
\<close>

theorem s_plus_bounds:
  "\<exists>p. s_plus data median = Inr p \<and> 0 \<le> p \<and>
        p \<le> int (length data) * (int (length data) + 1) div 2"
proof -
  let ?es = "enumerate 0 (sorted_absolute_diffs data median)"
  have "rank_sum Plus (signs data median) ?es \<le>
      rank_sum Plus (signs data median) ?es + rank_sum Minus (signs data median) ?es"
    using rank_sum_nonneg[of Minus "signs data median" ?es] by simp
  then have "rank_sum Plus (signs data median) ?es \<le>
      int (length data) * (int (length data) + 1) div 2"
    by (simp only: rank_sum_total)
  then show ?thesis
    by (simp add: s_plus_eq rank_sum_nonneg)
qed

text \<open>
  With \<open>N\<close> the number of nonzero differences the upper bound fails: the single
  observation 30 with centre 30 has \<open>s_plus = 1\<close> and \<open>N = 0\<close>.
\<close>

theorem s_plus_exceeds_nonzero_bound_counterexample:
  "s_plus [30] 30 = Inr 1 \<and>
   \<not> (1::int) \<le> int (nonzero_count [30] 30) * (int (nonzero_count [30] 30) + 1) div 2"
  by (simp add: s_plus_def signs_def sorted_absolute_diffs_def
      absolute_diffs_def track_signs_def diffs_def nonzero_count_def)

subsection \<open>Samples on one side of the centre\<close>

text \<open>
  C6. If every difference is strictly positive then \<open>s_plus = N(N+1)/2\<close>, with \<open>N\<close> the
  number of nonzero differences; if every difference is strictly negative then
  \<open>s_plus = 0\<close>.
\<close>

theorem s_plus_boundary:
  "((\<forall>x \<in> set data. median < x) \<longrightarrow>
      s_plus data median =
        Inr (int (nonzero_count data median) * (int (nonzero_count data median) + 1) div 2)) \<and>
   ((\<forall>x \<in> set data. x < median) \<longrightarrow> s_plus data median = Inr 0)"
proof (intro conjI impI)
  assume pos: "\<forall>x \<in> set data. median < x"
  then have "median \<notin> set data" by auto
  then have n: "nonzero_count data median = length data" by (rule nonzero_count_all)
  from pos have "\<forall>x \<in> set data. median \<le> x" by auto
  then show "s_plus data median =
      Inr (int (nonzero_count data median) * (int (nonzero_count data median) + 1) div 2)"
    by (simp only: n s_plus_all_nonneg)
next
  assume "\<forall>x \<in> set data. x < median"
  then show "s_plus data median = Inr 0" by (rule s_plus_all_neg)
qed

theorem s_plus_boundary_witness:
  "(30::real) < 31 \<and> (30::real) < 33 \<and> nonzero_count [31, 33] 30 = 2 \<and> s_plus [31, 33] 30 = Inr 3 \<and>
   (28::real) < 30 \<and> (25::real) < 30 \<and> s_plus [28, 25] 30 = Inr 0"
  using s_plus_boundary[of "[31, 33]" 30] s_plus_boundary[of "[28, 25]" 30]
  by (simp add: nonzero_count_def diffs_def)

subsection \<open>Reflection about the centre\<close>

text \<open>
  C7 (as the code has it). For every sample with no observation equal to the centre and
  in which differences of equal magnitude never have opposite signs, reflecting each
  observation about the centre negates every difference and exchanges the two rank sums:
  the new \<open>s_plus\<close> is the old sum of the ranks of the negative differences, and the new sum
  of the ranks of the negative differences is the old \<open>s_plus\<close>.
\<close>

theorem reflect_swaps_rank_sums:
  assumes "median \<notin> set data"
    and "\<forall>d \<in> set (diffs data median). \<forall>d' \<in> set (diffs data median).
      \<bar>d\<bar> = \<bar>d'\<bar> \<longrightarrow> (d < 0 \<longleftrightarrow> d' < 0)"
  shows "diffs (reflect data median) median = map uminus (diffs data median) \<and>
         s_plus (reflect data median) median = Inr (s_minus data median) \<and>
         s_plus data median = Inr (s_minus (reflect data median) median)"
  using s_plus_own_signs[OF same_sign_reflect[OF assms]] s_plus_own_signs[OF assms(2)]
  by (simp add: diffs_reflect s_minus_own own_rank_sum_reflect[OF assms(1)])

theorem reflect_swaps_rank_sums_witness:
  "(30::real) \<notin> set [31, 28, 33, 28] \<and> diffs [31, 28, 33, 28] 30 = [1, - 2, 3, - 2] \<and>
   reflect [31, 28, 33, 28] 30 = [29, 32, 27, 32] \<and>
   s_plus [29, 32, 27, 32] 30 = Inr 5 \<and> s_minus [31, 28, 33, 28] 30 = 5 \<and>
   s_plus [31, 28, 33, 28] 30 = Inr 5 \<and> s_minus [29, 32, 27, 32] 30 = 5"
proof -
  have h: "(30::real) \<notin> set [31, 28, 33, 28]" by simp
  have d: "diffs [31, 28, 33, 28] 30 = [1, - 2, 3, - 2]" by (simp add: diffs_def)
  have s: "\<forall>d \<in> set (diffs [31, 28, 33, 28] 30). \<forall>d' \<in> set (diffs [31, 28, 33, 28] 30).
      \<bar>d\<bar> = \<bar>d'\<bar> \<longrightarrow> (d < 0 \<longleftrightarrow> d' < 0)"
    by (simp add: d)
  have r: "reflect [31, 28, 33, 28] 30 = [29, 32, 27, 32]" by (simp add: reflect_def)
  have m: "s_minus [31, 28, 33, 28] 30 = 5"
    by (simp add: s_minus_def ranked_diffs_def d)
  have m': "s_minus [29, 32, 27, 32] 30 = 5"
    by (simp add: s_minus_def ranked_diffs_def diffs_def)
  from reflect_swaps_rank_sums[OF h s] h d r m m' show ?thesis by simp
qed

text \<open>
  With an observation equal to the centre the exchange fails, because the zero
  difference stays \<open>'+'\<close> under negation: for the observations 30, 31 and centre 30 the
  sums are 3 and 0, for the reflected observations 30, 29 they are 1 and 2.
\<close>

theorem reflect_swaps_rank_sums_counterexample:
  "reflect [30, 31] 30 = [30, 29] \<and> diffs [30, 29] 30 = map uminus (diffs [30, 31] 30) \<and>
   s_plus [30, 31] 30 = Inr 3 \<and> s_minus [30, 31] 30 = 0 \<and>
   s_plus [30, 29] 30 = Inr 1 \<and> s_minus [30, 29] 30 = 2 \<and>
   s_plus (reflect [30, 31] 30) 30 \<noteq> Inr (s_minus [30, 31] 30)"
  by (simp add: reflect_def s_plus_def s_minus_def ranked_diffs_def signs_def
      sorted_absolute_diffs_def absolute_diffs_def track_signs_def diffs_def)

subsection \<open>Ranks without ties\<close>

text \<open>
  C8. If the absolute differences are pairwise distinct, then differences, absolute
  differences and ranks are lists of the sample's length, the ranks are distinct and
  are exactly the integers \<open>1..n\<close> (position \<open>j\<close> of the sorted list has rank \<open>j+1\<close>), every
  observation's absolute difference occurs at exactly one position of the sorted list,
  and every position of the sorted list holds the absolute difference of exactly one
  observation.
\<close>

theorem ranks_permutation:
  assumes "distinct (absolute_diffs data median)"
  shows "length (diffs data median) = length data \<and>
         length (absolute_diffs data median) = length data \<and>
         length (ranks data median) = length data \<and>
         distinct (ranks data median) \<and> set (ranks data median) = {1..int (length data)} \<and>
         (\<forall>j<length data. ranks data median ! j = int j + 1) \<and>
         (\<forall>i<length data. \<exists>!j. j < length data \<and>
             sorted_absolute_diffs data median ! j = absolute_diffs data median ! i) \<and>
         (\<forall>j<length data. \<exists>!i. i < length data \<and>
             absolute_diffs data median ! i = sorted_absolute_diffs data median ! j)"
proof -
  let ?as = "absolute_diffs data median" and ?vs = "sorted_absolute_diffs data median"
  have la: "length ?as = length data" by (simp add: absolute_diffs_eq diffs_def)
  have lv: "length ?vs = length data" by simp
  have dv: "distinct ?vs" using assms by (simp add: sorted_absolute_diffs_def)
  have sv: "set ?vs = set ?as" by (simp add: sorted_absolute_diffs_def)
  have "\<exists>!j. j < length data \<and> ?vs ! j = ?as ! i" if "i < length data" for i
    using unique_position[OF dv sv, of "?as ! i"] that la by (simp add: lv)
  moreover have "\<exists>!i. i < length data \<and> ?as ! i = ?vs ! j" if "j < length data" for j
    using unique_position[OF assms sv[symmetric], of "?vs ! j"] that lv by (simp add: la)
  ultimately show ?thesis
    by (simp add: la distinct_ranks set_ranks) (simp add: ranks_eq diffs_def)
qed

theorem ranks_permutation_witness:
  "distinct (absolute_diffs [31, 28, 33] 30) \<and> absolute_diffs [31, 28, 33] 30 = [1, 2, 3] \<and>
   sorted_absolute_diffs [31, 28, 33] 30 = [1, 2, 3] \<and>
   set (ranks [31, 28, 33] 30) = {1..3} \<and> ranks [31, 28, 33] 30 ! 2 = 3"
proof -
  have a: "absolute_diffs [31, 28, 33] 30 = [1, 2, 3]"
    by (simp add: absolute_diffs_def track_signs_def diffs_def)
  then have h: "distinct (absolute_diffs [31, 28, 33] 30)" by simp
  have v: "sorted_absolute_diffs [31, 28, 33] 30 = [1, 2, 3]"
    by (simp add: sorted_absolute_diffs_def a)
  from ranks_permutation[OF h] h a v show ?thesis by simp
qed

subsection \<open>Division by zero in precision, recall and F1\<close>

text \<open>
  The three hand-written metrics. If no prediction is positive, both counters of
  \<open>precision\<close> stay 0 and the division raises \<open>ZeroDivisionError\<close>; likewise for \<open>recall\<close> if no
  label is positive. \<open>precision\<close> fails exactly when no zipped pair has a positive
  prediction, \<open>recall\<close> exactly when no zipped pair has a positive label, and \<open>f1\<close> raises
  no other error. The metrics that are single calls into numpy or scikit-learn
  (\<open>accuracy\<close>, \<open>MSE\<close>, \<open>RMSE\<close>, \<open>MAE\<close>, \<open>R2\<close>, \<open>roc_auc_multiclass\<close>) are not modelled: what they
  do on an empty array, on a zero variance or on a missing class is decided inside those
  libraries.
\<close>

theorem metric_division_by_zero:
  "(1 \<notin> set predictions \<longrightarrow>
      precision_loop (zip labels predictions) (0, 0) = (0, 0) \<and>
      precision labels predictions = Inl ZeroDivisionError) \<and>
   (1 \<notin> set labels \<longrightarrow>
      recall_loop (zip labels predictions) (0, 0) = (0, 0) \<and>
      recall labels predictions = Inl ZeroDivisionError) \<and>
   (\<forall>e. precision labels predictions = Inl e \<longleftrightarrow>
      e = ZeroDivisionError \<and> 1 \<notin> snd ` set (zip labels predictions)) \<and>
   (\<forall>e. recall labels predictions = Inl e \<longleftrightarrow>
      e = ZeroDivisionError \<and> 1 \<notin> fst ` set (zip labels predictions)) \<and>
   (\<forall>e. f1 labels predictions = Inl e \<longrightarrow> e = ZeroDivisionError)"
proof -
  have "\<forall>e. f1 labels predictions = Inl e \<longrightarrow> e = ZeroDivisionError"
    by (blast dest: f1_fails)
  moreover have "\<forall>e. precision labels predictions = Inl e \<longleftrightarrow>
      e = ZeroDivisionError \<and> 1 \<notin> snd ` set (zip labels predictions)"
    by (simp only: precision_fails_iff) simp
  moreover have "\<forall>e. recall labels predictions = Inl e \<longleftrightarrow>
      e = ZeroDivisionError \<and> 1 \<notin> fst ` set (zip labels predictions)"
    by (simp only: recall_fails_iff) simp
  ultimately show ?thesis
    using precision_no_positive[of predictions labels] recall_no_positive[of labels predictions]
    by blast
qed

theorem metric_division_by_zero_witness:
  "(1::int) \<notin> set [0, 0] \<and> precision [1, 0] [0, 0] = Inl ZeroDivisionError \<and>
   recall [0, 0] [1, 0] = Inl ZeroDivisionError \<and>
   precision [1, 0] [1, 1] = Inr (1 / 2) \<and> recall [1, 0] [1, 1] = Inr 1 \<and>
   f1 [1, 0] [0, 0] = Inl ZeroDivisionError"
proof -
  have h: "(1::int) \<notin> set [0, 0]" by simp
  have p: "precision [1, 0] [1, 1] = Inr (1 / 2)" by (simp add: precision_def)
  have r: "recall [1, 0] [1, 1] = Inr 1" by (simp add: recall_def)
  have f: "f1 [1, 0] [0, 0] = Inl ZeroDivisionError" by (simp add: f1_def precision_def)
  from metric_division_by_zero[of "[0, 0]" "[1, 0]"] metric_division_by_zero[of "[1, 0]" "[0, 0]"]
    h p r f show ?thesis by simp
qed

subsection \<open>Observations equal to the centre\<close>

text \<open>
  C10. If some observation equals the hypothesised centre, the key 0 of \<open>signs\<close> holds
  \<open>'+'\<close>; no observation is dropped from the ranked list, the zero difference takes rank 1,
  every position of the sorted list that holds a zero difference is signed \<open>'+'\<close>, and
  \<open>s_plus\<close> is the sum of the ranks \<open>i+1\<close> of the positions signed \<open>'+'\<close>, so that the ranks of
  the zero differences are summands of \<open>s_plus\<close>.
\<close>

theorem zero_difference_signed_plus:
  assumes "median \<in> set data"
  shows "\<exists>sgs. ordered_signs data median = Inr sgs \<and> length sgs = length data \<and>
           signs data median 0 = Some Plus \<and>
           sorted_absolute_diffs data median ! 0 = 0 \<and>
           (\<forall>i<length data. sorted_absolute_diffs data median ! i = 0 \<longrightarrow> sgs ! i = Plus) \<and>
           s_plus data median = Inr (\<Sum>i<length data. if sgs ! i = Plus then int i + 1 else 0)"
proof -
  let ?vs = "sorted_absolute_diffs data median"
  let ?sgs = "map (\<lambda>d. the (signs data median d)) ?vs"
  have eq: "(signs data median (?vs ! i) = Some Plus) = (?sgs ! i = Plus)"
    if "i < length data" for i
  proof -
    from that have "signs data median (?vs ! i) \<noteq> None"
      using sorted_values_defined by simp
    then obtain y where "signs data median (?vs ! i) = Some y" by auto
    with that show ?thesis by simp
  qed
  have "rank_sum Plus (signs data median) (enumerate 0 ?vs) =
      (\<Sum>i<length data. if signs data median (?vs ! i) = Some Plus then int i + 1 else 0)"
    by (simp add: rank_sum_nth)
  also have "\<dots> = (\<Sum>i<length data. if ?sgs ! i = Plus then int i + 1 else 0)"
    by (rule sum.cong) (simp_all add: eq)
  finally have "s_plus data median = Inr (\<Sum>i<length data. if ?sgs ! i = Plus then int i + 1 else 0)"
    by (simp add: s_plus_eq)
  moreover have "\<forall>i<length data. ?vs ! i = 0 \<longrightarrow> ?sgs ! i = Plus"
    by (simp add: signs_zero[OF assms])
  ultimately show ?thesis
    using signs_zero[OF assms] sorted_absolute_diffs_first_zero[OF assms]
    by (simp add: ordered_signs_eq)
qed

theorem zero_difference_signed_plus_witness:
  "(30::real) \<in> set [31, 30, 28] \<and> ordered_signs [31, 30, 28] 30 = Inr [Plus, Plus, Minus] \<and>
   sorted_absolute_diffs [31, 30, 28] 30 = [0, 1, 2] \<and> s_plus [31, 30, 28] 30 = Inr 3"
proof -
  have h: "(30::real) \<in> set [31, 30, 28]" by simp
  have o: "ordered_signs [31, 30, 28] 30 = Inr [Plus, Plus, Minus]"
    by (simp add: ordered_signs_def signs_def sorted_absolute_diffs_def
      absolute_diffs_def track_signs_def diffs_def)
  have v: "sorted_absolute_diffs [31, 30, 28] 30 = [0, 1, 2]"
    by (simp add: sorted_absolute_diffs_def absolute_diffs_def track_signs_def diffs_def)
  from zero_difference_signed_plus[OF h] o
  have "s_plus [31, 30, 28] 30 = Inr 3"
    by (simp add: lessThan_Suc numeral_3_eq_3)
  with h o v show ?thesis by simp
qed

end
